theory Spec2Isabelle
  imports Complex_Main
begin

section \<open>Python and NumPy values used by datashader/datatypes.py\<close>

text \<open>
  The module stores a ragged array in two NumPy buffers. The embedding keeps what the
  source distinguishes: the dtype of an index array (its kind and bit width), the number
  of dimensions of an object handed to the validator, the exception class and the
  payload of every message, and the three shapes a row value can take (\<open>None\<close>,
  \<open>np.nan\<close>, a 1-D array).

  The element type of the flat buffer is a HOL type \<open>'a\<close>, the same for all stores
  of one operation, so dtype promotion between element types is not part of the model,
  and neither is the memory of the host: an array of a length that NumPy accepts is
  allocated. The concrete stores below hold \<open>float64\<close> values, the module's default
  element type, written as reals, or integers; none of them holds a NaN element, and
  the equality of elements is that of HOL. Rows that hold NaN are written with the type
  \<open>float64\<close> below, where their order is at stake.
  Python integers are unbounded; lengths and offsets are \<open>nat\<close>, a scalar index is
  \<open>int\<close>.

  NumPy behaves as its releases 1.20 to 1.23 do, which run this module as it is (it uses
  \<open>np.bool\<close>): sums of an array and a scalar are cast by the scalar's value, a boolean
  index of another length raises, \<open>np.zeros\<close> refuses a length above \<open>2 ** 63 - 1\<close>,
  and \<open>None\<close> or \<open>np.nan\<close> cannot be written into an integer buffer, not even into
  an empty slice of it.

  The buffer \<open>'a list\<close> does not say which NumPy dtype stores it. Where the source
  reads that dtype (\<open>self.flat_array.dtype\<close>, \<open>np.result_type\<close> of the rows) the
  model takes its kind as an argument.
\<close>

datatype dtype = UInt nat | Int64 | Float64

text \<open>The kind of the dtype of a value buffer: floating point, or integer.\<close>

datatype elem_kind = FloatKind | IntKind

fun kind :: "dtype \<Rightarrow> char" where
  "kind (UInt _) = CHR ''u''"
| "kind Int64 = CHR ''i''"
| "kind Float64 = CHR ''f''"

text \<open>
  A 1-D array of offsets or lengths. Every such array in the module holds
  non-negative whole numbers (also the \<open>float64\<close> one that \<open>np.cumsum([])\<close>
  gives rise to), so the items are \<open>nat\<close>; the dtype says how they are stored.
\<close>

record index_array =
  dtype :: dtype
  items :: "nat list"

text \<open>An object received where an array is expected: an ndarray with its \<open>ndim\<close>
  and its contents, or anything else.\<close>

datatype 'a pyobj = Ndarray nat 'a | NotNdarray

text \<open>A row value: what \<open>__getitem__\<close> returns and what the constructor accepts.\<close>

datatype 'a pyrow = PyNone | Nan | Arr "'a list"

datatype detail =
    StartIndicesNot1DUnsigned "index_array pyobj"
  | FlatArrayNot1D "nat option"
  | InvalidStartIndices nat "nat list"
  | UnequalLength nat nat
  | OutOfBounds int
  | InvalidTakeIndices "int list"
  | NonEmptyTake
  | BooleanIndexMismatch nat nat
  | NeedAtLeastOneArray
  | MaximumDimension
  | NoneToInteger
  | NaNToInteger

datatype error = ValueError detail | IndexError detail | TypeError detail

text \<open>Python's \<open>a[start:stop]\<close> for non-negative bounds: clipped to the buffer, empty
  when \<open>stop \<le> start\<close>.\<close>

definition py_slice :: "'a list \<Rightarrow> nat \<Rightarrow> nat \<Rightarrow> 'a list" where
  "py_slice a start stop = take (stop - start) (drop start a)"

text \<open>\<open>missing(v)\<close>: \<open>v is None or (np.isscalar(v) and np.isnan(v))\<close>.\<close>

fun missing :: "'a pyrow \<Rightarrow> bool" where
  "missing PyNone = True"
| "missing Nan = True"
| "missing (Arr _) = False"

text \<open>\<open>len(v)\<close> of an array; the source calls it only after \<open>not missing(v)\<close>, and
  counts 0 for a missing value.\<close>

fun len_or_0 :: "'a pyrow \<Rightarrow> nat" where
  "len_or_0 (Arr xs) = length xs"
| "len_or_0 _ = 0"

text \<open>The values a row contributes to the flat buffer.\<close>

fun row_values :: "'a pyrow \<Rightarrow> 'a list" where
  "row_values (Arr xs) = xs"
| "row_values _ = []"

text \<open>A \<open>float64\<close> value, as far as its order goes: NaN or a number. A comparison
  with NaN is false.\<close>

datatype float64 = NaN | Finite real

instantiation float64 :: ord
begin

fun less_float64 :: "float64 \<Rightarrow> float64 \<Rightarrow> bool" where
  "less_float64 (Finite x) (Finite y) = (x < y)"
| "less_float64 _ _ = False"

fun less_eq_float64 :: "float64 \<Rightarrow> float64 \<Rightarrow> bool" where
  "less_eq_float64 (Finite x) (Finite y) = (x \<le> y)"
| "less_eq_float64 _ _ = False"

instance ..

end

section \<open>\<open>_validate_ragged_properties\<close>\<close>

text \<open>
  \<open>a[mask]\<close> with a boolean mask. NumPy (1.13 and later) raises \<open>IndexError\<close> when
  the mask's length differs from the array's; NumPy 1.12 and earlier only warned and
  read the mask as the positions of its true entries.
\<close>

definition np_bool_index :: "'a list \<Rightarrow> bool list \<Rightarrow> error + 'a list" where
  "np_bool_index a bmask =
     (if length bmask = length a then Inr (map fst (filter snd (zip a bmask)))
      else Inl (IndexError (BooleanIndexMismatch (length a) (length bmask))))"

definition received_ndim :: "'a pyobj \<Rightarrow> nat option" where
  "received_ndim v = (case v of Ndarray nd _ \<Rightarrow> Some nd | NotNdarray \<Rightarrow> None)"

text \<open>
  The source returns nothing and its caller reads the two arrays back from the dict; the
  model returns the arrays it has validated. The three checks and their order are the
  source's.
\<close>

definition validate_ragged_properties ::
  "index_array pyobj \<Rightarrow> 'a list pyobj \<Rightarrow> error + (index_array \<times> 'a list)" where
  "validate_ragged_properties start_indices flat_array =
     (case start_indices of
        NotNdarray \<Rightarrow> Inl (ValueError (StartIndicesNot1DUnsigned start_indices))
      | Ndarray nd si \<Rightarrow>
          if kind (dtype si) \<noteq> CHR ''u'' \<or> nd \<noteq> 1
          then Inl (ValueError (StartIndicesNot1DUnsigned start_indices))
          else
            (case flat_array of
               NotNdarray \<Rightarrow> Inl (ValueError (FlatArrayNot1D (received_ndim flat_array)))
             | Ndarray nd' fa \<Rightarrow>
                 if nd' \<noteq> 1
                 then Inl (ValueError (FlatArrayNot1D (received_ndim flat_array)))
                 else
                   (let invalid_inds = map (\<lambda>x. x > length fa) (items si)
                    in if list_ex id invalid_inds
                       then (case np_bool_index (items si) (take 10 invalid_inds) of
                               Inl e \<Rightarrow> Inl e
                             | Inr some_invalid_vals \<Rightarrow>
                                 Inl (ValueError
                                   (InvalidStartIndices (length fa) some_invalid_vals)))
                       else Inr (si, fa))))"

section \<open>\<open>_lexograph_lt\<close>\<close>

text \<open>
  The elements are compared with \<open><\<close> and \<open>></\<close> as the element type has them, of
  which nothing is assumed: for \<open>float64\<close> neither holds of a pair with a NaN.
  The loop over \<open>zip(a1, a2)\<close>; the second argument is the value returned when the
  loop runs to its end.
\<close>

fun lexograph_loop :: "('a::ord \<times> 'a) list \<Rightarrow> bool \<Rightarrow> bool" where
  "lexograph_loop [] after = after"
| "lexograph_loop ((e1, e2) # rest) after =
     (if e1 < e2 then True
      else if e1 > e2 then False
      else lexograph_loop rest after)"

definition lexograph_lt :: "'a::ord list \<Rightarrow> 'a list \<Rightarrow> bool" where
  "lexograph_lt a1 a2 = lexograph_loop (zip a1 a2) (length a1 < length a2)"

section \<open>\<open>RaggedArray\<close>\<close>

record 'a RaggedArray =
  start_indices :: index_array
  flat_array :: "'a list"

text \<open>The argument \<open>data\<close> of the constructor: a dict with the two buffers, another
  \<open>RaggedArray\<close>, or a list of rows. The rows come with the kind of the dtype that
  \<open>np.result_type\<close> finds for those that are not missing (line 265).\<close>

datatype 'a init_data =
    Dict "index_array pyobj" "'a list pyobj"
  | Other "'a RaggedArray"
  | Rows "'a pyrow list" elem_kind

text \<open>\<open>for nbits in [8, 16, 32, 64]: ... if buffer_len <= max_supported: break\<close>.
  The last argument is \<open>start_indices_dtype\<close> as the previous iteration left it: the
  value the loop ends with when no iteration breaks.\<close>

fun nbits_loop :: "nat \<Rightarrow> nat list \<Rightarrow> dtype \<Rightarrow> dtype" where
  "nbits_loop buffer_len [] start_indices_dtype = start_indices_dtype"
| "nbits_loop buffer_len (nbits # rest) start_indices_dtype =
     (let max_supported = 2 ^ nbits - 1
      in if buffer_len \<le> max_supported then UInt nbits
         else nbits_loop buffer_len rest (UInt nbits))"

definition start_indices_dtype :: "nat \<Rightarrow> dtype" where
  "start_indices_dtype buffer_len = nbits_loop buffer_len [8, 16, 32, 64] (UInt 8)"

text \<open>Lines 261 to 269: the dtype of the value buffer, from the argument \<open>dtype\<close> or
  from the rows; \<open>float64\<close> when every row is missing.\<close>

definition infer_dtype :: "elem_kind option \<Rightarrow> 'a pyrow list \<Rightarrow> elem_kind \<Rightarrow> elem_kind" where
  "infer_dtype dtype_arg data result_type =
     (case dtype_arg of
        None \<Rightarrow>
          (let non_missing = filter (\<lambda>v. \<not> missing v) data
           in if non_missing \<noteq> [] then result_type else FloatKind)
      | Some d \<Rightarrow> d)"

text \<open>\<open>np.zeros(n, dtype)\<close>: NumPy raises \<open>ValueError\<close> for a length that no array
  can have. Whether the host has the memory for a smaller one is not modelled.\<close>

definition np_zeros :: "nat \<Rightarrow> error + 'a::zero list" where
  "np_zeros n =
     (if n > 2 ^ 63 - 1 then Inl (ValueError MaximumDimension) else Inr (replicate n 0))"

text \<open>
  \<open>a[lo:hi] = array_el\<close>, line 285, for a buffer \<open>a\<close> of the given dtype. An array
  of \<open>hi - lo\<close> items replaces the slice. A missing value comes with an empty slice
  (\<open>n = 0\<close>): a float buffer is left as it is, and for an integer buffer NumPy raises
  when it converts the value, \<open>TypeError\<close> for \<open>None\<close> and \<open>ValueError\<close> for
  \<open>np.nan\<close>.
\<close>

definition assign_slice ::
  "elem_kind \<Rightarrow> 'a list \<Rightarrow> nat \<Rightarrow> nat \<Rightarrow> 'a pyrow \<Rightarrow> error + 'a list" where
  "assign_slice dt a lo hi array_el =
     (case array_el of
        Arr vs \<Rightarrow> Inr (take lo a @ vs @ drop hi a)
      | PyNone \<Rightarrow> if dt = FloatKind then Inr a else Inl (TypeError NoneToInteger)
      | Nan \<Rightarrow> if dt = FloatKind then Inr a else Inl (ValueError NaNToInteger))"

text \<open>The loop that fills the two buffers; \<open>i\<close> is the position \<open>enumerate\<close> has
  reached. An exception of the assignment ends it.\<close>

fun populate ::
  "elem_kind \<Rightarrow> 'a pyrow list \<Rightarrow> nat \<Rightarrow> nat \<Rightarrow> nat list \<Rightarrow> 'a list
     \<Rightarrow> error + nat list \<times> 'a list" where
  "populate dt [] i next_start_ind si fa = Inr (si, fa)"
| "populate dt (array_el # rest) i next_start_ind si fa =
     (let n = (if \<not> missing array_el then len_or_0 array_el else 0);
          si' = si[i := next_start_ind]
      in case assign_slice dt fa next_start_ind (next_start_ind + n) array_el of
           Inl e \<Rightarrow> Inl e
         | Inr fa' \<Rightarrow> populate dt rest (Suc i) (next_start_ind + n) si' fa')"

text \<open>\<open>RaggedArray(data, dtype)\<close>. The argument \<open>dtype\<close> (here \<open>dtype_arg\<close>) is read
  in the list branch only, and \<open>copy\<close> changes nothing that the model can see.\<close>

definition RaggedArray_init ::
  "'a::zero init_data \<Rightarrow> elem_kind option \<Rightarrow> error + 'a RaggedArray" where
  "RaggedArray_init data dtype_arg =
     (case data of
        Dict si fa \<Rightarrow>
          (case validate_ragged_properties si fa of
             Inl e \<Rightarrow> Inl e
           | Inr (s, f) \<Rightarrow> Inr \<lparr>start_indices = s, flat_array = f\<rparr>)
      | Other ra \<Rightarrow> Inr \<lparr>start_indices = start_indices ra, flat_array = flat_array ra\<rparr>
      | Rows rows result_type \<Rightarrow>
          (let index_len = length rows;
               buffer_len = sum_list (map (\<lambda>datum. if \<not> missing datum then len_or_0 datum else 0) rows);
               sdt = start_indices_dtype buffer_len;
               dt = infer_dtype dtype_arg rows result_type
           in case np_zeros index_len of
                Inl e \<Rightarrow> Inl e
              | Inr si0 \<Rightarrow>
                  (case np_zeros buffer_len of
                     Inl e \<Rightarrow> Inl e
                   | Inr fa0 \<Rightarrow>
                       (case populate dt rows 0 0 si0 fa0 of
                          Inl e \<Rightarrow> Inl e
                        | Inr (si, fa) \<Rightarrow>
                            Inr \<lparr>start_indices = \<lparr>dtype = sdt, items = si\<rparr>,
                                 flat_array = fa\<rparr>))))"

definition len_ra :: "'a RaggedArray \<Rightarrow> nat" where
  "len_ra self = length (items (start_indices self))"

subsection \<open>\<open>__getitem__\<close>\<close>

definition getitem_int :: "'a RaggedArray \<Rightarrow> int \<Rightarrow> error + 'a pyrow" where
  "getitem_int self item =
     (if item < - int (len_ra self) \<or> item \<ge> int (len_ra self)
      then Inl (IndexError (OutOfBounds item))
      else
        (let item = (if item < 0 then item + int (len_ra self) else item);
             slice_start = items (start_indices self) ! nat item;
             slice_end = (if item + 1 \<le> int (len_ra self) - 1
                          then items (start_indices self) ! nat (item + 1)
                          else length (flat_array self))
         in Inr (if slice_end \<noteq> slice_start
                 then Arr (py_slice (flat_array self) slice_start slice_end)
                 else Nan)))"

text \<open>A list comprehension whose element expression may raise: the first exception, in
  list order, ends it.\<close>

fun collect :: "('b \<Rightarrow> error + 'c) \<Rightarrow> 'b list \<Rightarrow> error + 'c list" where
  "collect f [] = Inr []"
| "collect f (x # xs) =
     (case f x of
        Inl e \<Rightarrow> Inl e
      | Inr y \<Rightarrow> (case collect f xs of Inl e \<Rightarrow> Inl e | Inr ys \<Rightarrow> Inr (y # ys)))"

text \<open>\<open>for i, m in enumerate(item): if m: data.append(self[i])\<close>.\<close>

fun mask_loop ::
  "'a RaggedArray \<Rightarrow> nat \<Rightarrow> bool list \<Rightarrow> 'a pyrow list \<Rightarrow> error + 'a pyrow list" where
  "mask_loop self i [] data = Inr data"
| "mask_loop self i (m # rest) data =
     (if m
      then (case getitem_int self (int i) of
              Inl e \<Rightarrow> Inl e
            | Inr r \<Rightarrow> mask_loop self (Suc i) rest (data @ [r]))
      else mask_loop self (Suc i) rest data)"

text \<open>The branch of \<open>__getitem__\<close> for a boolean array; \<open>flat_dtype\<close> is the kind of
  \<open>self.flat_array.dtype\<close>.\<close>

definition getitem_mask ::
  "elem_kind \<Rightarrow> 'a::zero RaggedArray \<Rightarrow> bool list \<Rightarrow> error + 'a RaggedArray" where
  "getitem_mask flat_dtype self item =
     (case mask_loop self 0 item [] of
        Inl e \<Rightarrow> Inl e
      | Inr data \<Rightarrow> RaggedArray_init (Rows data flat_dtype) (Some flat_dtype))"

subsection \<open>\<open>take\<close>\<close>

text \<open>\<open>flat_dtype\<close> is the kind of \<open>self.flat_array.dtype\<close>.\<close>

definition take_ra ::
  "elem_kind \<Rightarrow> 'a::zero RaggedArray \<Rightarrow> int list \<Rightarrow> bool \<Rightarrow> 'a pyrow
     \<Rightarrow> error + 'a RaggedArray" where
  "take_ra flat_dtype self indices allow_fill fill_value =
     (if allow_fill
      then
        (let invalid_inds = filter (\<lambda>i. i < - 1) indices
         in if invalid_inds \<noteq> []
            then Inl (ValueError (InvalidTakeIndices (take 9 invalid_inds)))
            else
              (case collect (\<lambda>i. if i \<ge> 0 then getitem_int self i else Inr fill_value) indices of
                 Inl e \<Rightarrow> Inl e
               | Inr sequence \<Rightarrow>
                   RaggedArray_init (Rows sequence flat_dtype) (Some flat_dtype)))
      else
        (if len_ra self = 0 \<and> length indices > 0
         then Inl (IndexError NonEmptyTake)
         else
           (case collect (getitem_int self) indices of
              Inl e \<Rightarrow> Inl e
            | Inr sequence \<Rightarrow>
                   RaggedArray_init (Rows sequence flat_dtype) (Some flat_dtype))))"

subsection \<open>\<open>__eq__\<close> and \<open>_eq_ragged_ragged\<close>\<close>

text \<open>\<open>np.array_equal\<close> on two 1-D arrays: the same shape and every pair of items
  equal.\<close>

definition np_array_equal :: "'a list \<Rightarrow> 'a list \<Rightarrow> bool" where
  "np_array_equal a b = (length a = length b \<and> list_all (\<lambda>(x, y). x = y) (zip a b))"

text \<open>One iteration of \<open>for i in range(n)\<close>: the assignment \<open>result[i] = ...\<close>.\<close>

definition eq_step ::
  "nat list \<Rightarrow> 'a list \<Rightarrow> nat list \<Rightarrow> 'a list \<Rightarrow> nat \<Rightarrow> bool list \<Rightarrow> bool list" where
  "eq_step start_indices1 flat_array1 start_indices2 flat_array2 i result =
     (let n = length start_indices1;
          m1 = length flat_array1;
          m2 = length flat_array2;
          start_index1 = start_indices1 ! i;
          stop_index1 = (if i < n - 1 then start_indices1 ! (i + 1) else m1);
          start_index2 = start_indices2 ! i;
          stop_index2 = (if i < n - 1 then start_indices2 ! (i + 1) else m2)
      in result[i := np_array_equal (py_slice flat_array1 start_index1 stop_index1)
                                    (py_slice flat_array2 start_index2 stop_index2)])"

definition eq_ragged_ragged :: "'a RaggedArray \<Rightarrow> 'a RaggedArray \<Rightarrow> bool list" where
  "eq_ragged_ragged ra1 ra2 =
     (let start_indices1 = items (start_indices ra1);
          flat_array1 = flat_array ra1;
          start_indices2 = items (start_indices ra2);
          flat_array2 = flat_array ra2;
          n = length start_indices1
      in fold (eq_step start_indices1 flat_array1 start_indices2 flat_array2)
           [0..<n] (replicate n False))"

text \<open>\<open>__eq__\<close> with another \<open>RaggedArray\<close> as its operand.\<close>

definition eq_ra :: "'a RaggedArray \<Rightarrow> 'a RaggedArray \<Rightarrow> error + bool list" where
  "eq_ra self other =
     (if len_ra other \<noteq> len_ra self
      then Inl (ValueError (UnequalLength (len_ra self) (len_ra other)))
      else Inr (eq_ragged_ragged self other))"

subsection \<open>\<open>_concat_same_type\<close>\<close>

text \<open>
  The NumPy functions the method calls, on index arrays, as the NumPy releases do that
  this module runs on (it uses \<open>np.bool\<close> and passes a generator to \<open>np.hstack\<close>,
  both gone from later releases):
  \<^item> \<open>np.cumsum\<close> of a list of Python ints is an \<open>int64\<close> array, and of the empty
    list an empty \<open>float64\<close> array;
  \<^item> \<open>np.hstack\<close> gives the items in order, in the promoted dtype of all its
    arguments (empty ones too), and raises \<open>ValueError\<close> on no argument;
  \<^item> an array plus a NumPy scalar of the same category (both integers) is computed in
    the array's dtype promoted with the smallest dtype that holds the scalar's
    \<^emph>\<open>value\<close>: a \<open>uint8\<close> array plus \<open>np.int64(200)\<close> is a \<open>uint8\<close> array, plus
    \<open>np.int64(300)\<close> a \<open>uint16\<close> array; unsigned addition wraps around. A
    \<open>float64\<close> scalar makes the result \<open>float64\<close>.
\<close>

fun promote_types :: "dtype \<Rightarrow> dtype \<Rightarrow> dtype" where
  "promote_types (UInt a) (UInt b) = UInt (max a b)"
| "promote_types Float64 _ = Float64"
| "promote_types _ Float64 = Float64"
| "promote_types Int64 Int64 = Int64"
| "promote_types (UInt a) Int64 = (if a < 64 then Int64 else Float64)"
| "promote_types Int64 (UInt a) = (if a < 64 then Int64 else Float64)"

definition min_scalar_type :: "nat \<Rightarrow> dtype" where
  "min_scalar_type v =
     (if v \<le> 255 then UInt 8
      else if v \<le> 65535 then UInt 16
      else if v \<le> 4294967295 then UInt 32
      else UInt 64)"

fun running_sum :: "nat \<Rightarrow> nat list \<Rightarrow> nat list" where
  "running_sum acc [] = []"
| "running_sum acc (x # xs) = (acc + x) # running_sum (acc + x) xs"

definition np_cumsum :: "nat list \<Rightarrow> index_array" where
  "np_cumsum xs = \<lparr>dtype = (if xs = [] then Float64 else Int64), items = running_sum 0 xs\<rparr>"

fun np_hstack :: "index_array list \<Rightarrow> error + index_array" where
  "np_hstack [] = Inl (ValueError NeedAtLeastOneArray)"
| "np_hstack (a # as) =
     Inr \<lparr>dtype = foldl promote_types (dtype a) (map dtype as),
          items = concat (map items (a # as))\<rparr>"

fun np_hstack_flat :: "'a list list \<Rightarrow> error + 'a list" where
  "np_hstack_flat [] = Inl (ValueError NeedAtLeastOneArray)"
| "np_hstack_flat (a # as) = Inr (concat (a # as))"

text \<open>\<open>a + offset\<close>, where \<open>offset\<close> is an item of an array of dtype \<open>sdt\<close>.\<close>

definition np_add_scalar :: "index_array \<Rightarrow> dtype \<Rightarrow> nat \<Rightarrow> index_array" where
  "np_add_scalar a sdt offset =
     (let rt = (if kind sdt = CHR ''f'' \<or> kind (dtype a) = CHR ''f'' then Float64
                else promote_types (dtype a) (min_scalar_type offset))
      in \<lparr>dtype = rt,
          items = (case rt of
                     UInt w \<Rightarrow> map (\<lambda>x. (x + offset) mod 2 ^ w) (items a)
                   | _ \<Rightarrow> map (\<lambda>x. x + offset) (items a))\<rparr>)"

definition concat_same_type :: "'a::zero RaggedArray list \<Rightarrow> error + 'a RaggedArray" where
  "concat_same_type to_concat =
     (case np_hstack_flat (map flat_array to_concat) of
        Inl e \<Rightarrow> Inl e
      | Inr flat \<Rightarrow>
          (case np_hstack [\<lparr>dtype = Int64, items = [0]\<rparr>,
                           np_cumsum (map (\<lambda>ra. length (flat_array ra)) (butlast to_concat))] of
             Inl e \<Rightarrow> Inl e
           | Inr offsets \<Rightarrow>
               (case np_hstack (map (\<lambda>(offset, ra). np_add_scalar (start_indices ra) (dtype offsets) offset)
                                  (zip (items offsets) to_concat)) of
                  Inl e \<Rightarrow> Inl e
                | Inr si \<Rightarrow> RaggedArray_init (Dict (Ndarray 1 si) (Ndarray 1 flat)) None)))"

section \<open>The data model in the specification's words\<close>

text \<open>
  Row \<open>i\<close> of a store is the half-open subrange \<open>[offsets[i], offsets[i+1])\<close> of the
  value buffer for \<open>i < N - 1\<close>, and \<open>[offsets[N-1], M)\<close> for the last row. These
  definitions follow that wording; the theorems below compare the code with them.
\<close>

definition spec_index :: "nat \<Rightarrow> int \<Rightarrow> nat" where
  "spec_index n i = nat (if i < 0 then i + int n else i)"

definition spec_row_start :: "'a RaggedArray \<Rightarrow> nat \<Rightarrow> nat" where
  "spec_row_start s i = items (start_indices s) ! i"

definition spec_row_stop :: "'a RaggedArray \<Rightarrow> nat \<Rightarrow> nat" where
  "spec_row_stop s i =
     (if i < len_ra s - 1 then items (start_indices s) ! (i + 1) else length (flat_array s))"

definition spec_row :: "'a RaggedArray \<Rightarrow> nat \<Rightarrow> 'a list" where
  "spec_row s i = py_slice (flat_array s) (spec_row_start s i) (spec_row_stop s i)"

text \<open>What \<open>get\<close> returns for row \<open>j\<close>: the missing sentinel exactly when the
  subrange is empty by its bounds.\<close>

definition spec_get :: "'a RaggedArray \<Rightarrow> nat \<Rightarrow> 'a pyrow" where
  "spec_get s j = (if spec_row_start s j = spec_row_stop s j then Nan else Arr (spec_row s j))"


definition spec_mask_rows :: "'a RaggedArray \<Rightarrow> bool list \<Rightarrow> 'a pyrow list" where
  "spec_mask_rows s item = map (spec_get s) (filter (\<lambda>j. item ! j) [0..<length item])"

text \<open>The positions \<open>enumerate\<close> gives to the true entries of a mask, counted from
  \<open>i\<close>.\<close>

fun positions_from :: "nat \<Rightarrow> bool list \<Rightarrow> nat list" where
  "positions_from i [] = []"
| "positions_from i (m # rest) = (if m then [i] else []) @ positions_from (Suc i) rest"

text \<open>The offsets and the value buffer that a list of rows describes: each row starts
  where the previous one ended, and the buffer is the rows' values back to back.\<close>

fun row_starts :: "nat \<Rightarrow> 'a pyrow list \<Rightarrow> nat list" where
  "row_starts s [] = []"
| "row_starts s (r # rs) = s # row_starts (s + length (row_values r)) rs"

definition flat_of :: "'a pyrow list \<Rightarrow> 'a list" where
  "flat_of rows = concat (map row_values rows)"

text \<open>\<open>M\<close>: the sum of the rows' lengths, a missing row counting 0.\<close>

definition total_len :: "'a pyrow list \<Rightarrow> nat" where
  "total_len rows = sum_list (map (\<lambda>r. length (row_values r)) rows)"

text \<open>The offsets of a concatenation: each input's own offsets shifted by the length of
  the value buffers of all inputs before it (\<open>off\<close> is that length so far).\<close>

fun spec_concat_items :: "nat \<Rightarrow> 'a RaggedArray list \<Rightarrow> nat list" where
  "spec_concat_items off [] = []"
| "spec_concat_items off (ra # ras) =
     map (\<lambda>x. x + off) (items (start_indices ra))
       @ spec_concat_items (off + length (flat_array ra)) ras"

text \<open>No shifted offset leaves the width in which \<open>_concat_same_type\<close> computes it: for
  every input with unsigned offsets, offset plus shift is below \<open>2 ^ w\<close>, where \<open>w\<close> is
  the wider of the input's offset width and the smallest width that holds the shift.\<close>

fun no_wrap :: "nat \<Rightarrow> 'a RaggedArray list \<Rightarrow> bool" where
  "no_wrap off [] = True"
| "no_wrap off (ra # ras) =
     ((case promote_types (dtype (start_indices ra)) (min_scalar_type off) of
         UInt w \<Rightarrow> kind (dtype (start_indices ra)) = CHR ''u''
                   \<and> list_all (\<lambda>x. x + off < 2 ^ w) (items (start_indices ra))
       | _ \<Rightarrow> False)
      \<and> no_wrap (off + length (flat_array ra)) ras)"

text \<open>The list \<open>[ra.start_indices + offset for offset, ra in zip(offsets, to_concat)]\<close>
  of \<open>_concat_same_type\<close>, with the \<open>int64\<close> offsets that two or more inputs give;
  \<open>acc\<close> is the first offset.\<close>

definition shifted_arrays :: "nat \<Rightarrow> 'a RaggedArray list \<Rightarrow> index_array list" where
  "shifted_arrays acc ras =
     map (\<lambda>(offset, ra). np_add_scalar (start_indices ra) Int64 offset)
       (zip (acc # running_sum acc (map (\<lambda>ra. length (flat_array ra)) (butlast ras))) ras)"

section \<open>Stores used as concrete inputs\<close>

text \<open>The store built from \<open>[[1, 2], None, [], [3]]\<close>, and one built from
  \<open>[[1, 2], [4], nan, [3]]\<close>.\<close>

definition example_store :: "real RaggedArray" where
  "example_store =
     \<lparr>start_indices = \<lparr>dtype = UInt 8, items = [0, 2, 2, 2]\<rparr>, flat_array = [1, 2, 3]\<rparr>"

definition example_store2 :: "real RaggedArray" where
  "example_store2 =
     \<lparr>start_indices = \<lparr>dtype = UInt 8, items = [0, 2, 3, 3]\<rparr>, flat_array = [1, 2, 4, 3]\<rparr>"

text \<open>The stores built from \<open>[[7.0]]\<close>, from \<open>[[1.0], [2.0], [3.0]]\<close> and from
  \<open>[]\<close>.\<close>

definition one_row_store :: "real RaggedArray" where
  "one_row_store = \<lparr>start_indices = \<lparr>dtype = UInt 8, items = [0]\<rparr>, flat_array = [7]\<rparr>"

definition three_row_store :: "real RaggedArray" where
  "three_row_store =
     \<lparr>start_indices = \<lparr>dtype = UInt 8, items = [0, 1, 2]\<rparr>, flat_array = [1, 2, 3]\<rparr>"


text \<open>The store built from \<open>[[1, 2], [], [3]]\<close> with \<open>dtype='int64'\<close>: an integer
  buffer and an empty row.\<close>

definition int_store :: "int RaggedArray" where
  "int_store =
     \<lparr>start_indices = \<lparr>dtype = UInt 8, items = [0, 2, 2]\<rparr>, flat_array = [1, 2, 3]\<rparr>"

text \<open>Row inputs: \<open>[[1, 2], None, [], [3]]\<close> (of dtype \<open>float64\<close>, for its empty
  list), the integer rows \<open>[[1, 2], None]\<close>, three rows of \<open>2 ** 63 - 1\<close> zeros each
  (the largest length a Python sequence can report), and two rows of \<open>2 ** 63\<close> zeros
  together.\<close>

definition int_rows :: "int pyrow list" where
  "int_rows = [Arr [1, 2], PyNone]"




text \<open>Two stores as the constructor builds them from \<open>[[7.0] * 200]\<close> and from
  \<open>[[7.0] * 100, [7.0] * 100]\<close> (both with \<open>uint8\<close> offsets), and a raw offsets array of
  eleven items whose last one points past an empty value buffer.\<close>

definition wide_a :: "real RaggedArray" where
  "wide_a = \<lparr>start_indices = \<lparr>dtype = UInt 8, items = [0]\<rparr>, flat_array = replicate 200 7\<rparr>"

definition wide_b :: "real RaggedArray" where
  "wide_b =
     \<lparr>start_indices = \<lparr>dtype = UInt 8, items = [0, 100]\<rparr>, flat_array = replicate 200 7\<rparr>"

definition eleven_offsets :: index_array where
  "eleven_offsets = \<lparr>dtype = UInt 8, items = [0, 0, 0, 0, 0, 0, 0, 0, 0, 0, 5]\<rparr>"

section \<open>Lexicographic order of two rows\<close>

lemma lexograph_loop_iff:
  "lexograph_loop (zip a b) d \<longleftrightarrow>
     (\<exists>i. i < length a \<and> i < length b
          \<and> (\<forall>j<i. \<not> a ! j < b ! j \<and> \<not> b ! j < a ! j) \<and> a ! i < b ! i)
     \<or> ((\<forall>j<min (length a) (length b). \<not> a ! j < b ! j \<and> \<not> b ! j < a ! j) \<and> d)"
proof (induction a arbitrary: b)
  case Nil
  then show ?case by simp
next
  case (Cons x xs)
  show ?case
  proof (cases b)
    case Nil
    then show ?thesis by simp
  next
    case (Cons y ys)
    let ?U = "\<lambda>u v. \<not> u < v \<and> \<not> v < u"
    have all_shift: "(\<forall>j<Suc n. ?U ((x # xs) ! j) ((y # ys) ! j))
        \<longleftrightarrow> ?U x y \<and> (\<forall>j<n. ?U (xs ! j) (ys ! j))" for n
    proof
      assume h: "\<forall>j<Suc n. ?U ((x # xs) ! j) ((y # ys) ! j)"
      from h have "?U ((x # xs) ! 0) ((y # ys) ! 0)" by blast
      moreover have "?U (xs ! j) (ys ! j)" if "j < n" for j
        using h that by (metis Suc_less_eq nth_Cons_Suc)
      ultimately show "?U x y \<and> (\<forall>j<n. ?U (xs ! j) (ys ! j))" by simp
    next
      assume h: "?U x y \<and> (\<forall>j<n. ?U (xs ! j) (ys ! j))"
      show "\<forall>j<Suc n. ?U ((x # xs) ! j) ((y # ys) ! j)"
      proof (intro allI impI)
        fix j assume "j < Suc n"
        then show "?U ((x # xs) ! j) ((y # ys) ! j)"
          using h by (cases j) simp_all
      qed
    qed
    have ex_shift:
      "(\<exists>i. i < length (x # xs) \<and> i < length (y # ys)
            \<and> (\<forall>j<i. ?U ((x # xs) ! j) ((y # ys) ! j)) \<and> (x # xs) ! i < (y # ys) ! i)
        \<longleftrightarrow> x < y \<or> (?U x y \<and>
            (\<exists>i. i < length xs \<and> i < length ys
                 \<and> (\<forall>j<i. ?U (xs ! j) (ys ! j)) \<and> xs ! i < ys ! i))"
      (is "?L \<longleftrightarrow> ?R")
    proof
      assume ?L
      then obtain i where i: "i < length (x # xs)" "i < length (y # ys)"
        "\<forall>j<i. ?U ((x # xs) ! j) ((y # ys) ! j)" "(x # xs) ! i < (y # ys) ! i" by blast
      show ?R
      proof (cases i)
        case 0
        with i show ?thesis by simp
      next
        case (Suc k)
        with i(3) have "?U x y \<and> (\<forall>j<k. ?U (xs ! j) (ys ! j))"
          using all_shift [of k] by simp
        moreover from i Suc have "k < length xs" "k < length ys" "xs ! k < ys ! k" by simp_all
        ultimately show ?thesis by blast
      qed
    next
      assume ?R
      then show ?L
      proof
        assume "x < y"
        then have "0 < length (x # xs) \<and> 0 < length (y # ys)
            \<and> (\<forall>j<0. ?U ((x # xs) ! j) ((y # ys) ! j)) \<and> (x # xs) ! 0 < (y # ys) ! 0"
          by simp
        then show ?L by blast
      next
        assume "?U x y \<and> (\<exists>i. i < length xs \<and> i < length ys
                 \<and> (\<forall>j<i. ?U (xs ! j) (ys ! j)) \<and> xs ! i < ys ! i)"
        then obtain i where u: "?U x y" and i: "i < length xs" "i < length ys"
          "\<forall>j<i. ?U (xs ! j) (ys ! j)" "xs ! i < ys ! i"
          by blast
        from u i(3) have "\<forall>j<Suc i. ?U ((x # xs) ! j) ((y # ys) ! j)"
          using all_shift [of i] by simp
        with i have "Suc i < length (x # xs) \<and> Suc i < length (y # ys)
            \<and> (\<forall>j<Suc i. ?U ((x # xs) ! j) ((y # ys) ! j))
            \<and> (x # xs) ! Suc i < (y # ys) ! Suc i"
          by simp
        then show ?L by blast
      qed
    qed
    have pre: "(\<forall>j<min (length (x # xs)) (length (y # ys)). ?U ((x # xs) ! j) ((y # ys) ! j))
       \<longleftrightarrow> ?U x y \<and> (\<forall>j<min (length xs) (length ys). ?U (xs ! j) (ys ! j))"
      using all_shift [of "min (length xs) (length ys)"] by simp
    have step: "lexograph_loop (zip (x # xs) (y # ys)) d \<longleftrightarrow>
        x < y \<or> (?U x y \<and> lexograph_loop (zip xs ys) d)"
      by auto
    show ?thesis
      unfolding Cons step ex_shift pre Cons.IH [of ys] by blast
  qed
qed

text \<open>For an element type that is a linear order (the integer dtypes, floats free of NaN)
  the first pair that \<open><\<close> or \<open>></\<close> orders is the first pair that differs.\<close>

lemma lexograph_lt_linorder:
  fixes a b :: "'a::linorder list"
  shows "lexograph_lt a b \<longleftrightarrow>
     (\<exists>i<min (length a) (length b). (\<forall>j<i. a ! j = b ! j) \<and> a ! i < b ! i)
     \<or> ((\<forall>j<min (length a) (length b). a ! j = b ! j) \<and> length a < length b)"
proof -
  have u: "(\<not> x < y \<and> \<not> y < x) \<longleftrightarrow> x = y" for x y :: 'a
    by auto
  show ?thesis
    unfolding lexograph_lt_def lexograph_loop_iff u by auto
qed

text \<open>
  C8, as the claim states it, fails on rows that hold NaN. For \<open>[nan, 1.0]\<close> and
  \<open>[0.0, 2.0]\<close> the rows differ at position 0, where the first row's element is not
  the smaller one, and the first row is not the shorter; yet \<open>_lexograph_lt\<close> passes
  over the pair with the NaN and answers true at position 1.
\<close>

theorem lexograph_lt_nan_counterexample:
  "lexograph_lt [NaN, Finite 1] [Finite 0, Finite 2]
   \<and> [NaN, Finite 1] ! 0 \<noteq> [Finite 0, Finite 2] ! 0
   \<and> \<not> [NaN, Finite 1] ! 0 < [Finite 0, Finite 2] ! 0
   \<and> \<not> length [NaN, Finite 1] < length [Finite 0, Finite 2]"
  by (simp add: lexograph_lt_def)

text \<open>
  C8, amended. For every two rows \<open>a\<close> and \<open>b\<close>, \<open>_lexograph_lt\<close> says \<open>a < b\<close>
  exactly when, at the first position whose two elements are ordered by \<open><\<close> one way
  or the other, the element of \<open>a\<close> is the smaller one, or no position of the common
  prefix has ordered elements and \<open>a\<close> is strictly shorter. A pair that is equal or
  unordered (a NaN) is passed over.
\<close>

theorem lexograph_lt_first_ordered_pair:
  fixes a b :: "'a::ord list"
  shows "lexograph_lt a b \<longleftrightarrow>
     (\<exists>i<min (length a) (length b).
         (\<forall>j<i. \<not> a ! j < b ! j \<and> \<not> b ! j < a ! j) \<and> a ! i < b ! i)
     \<or> ((\<forall>j<min (length a) (length b). \<not> a ! j < b ! j \<and> \<not> b ! j < a ! j)
          \<and> length a < length b)"
proof -
  have "(\<exists>i. i < length a \<and> i < length b
          \<and> (\<forall>j<i. \<not> a ! j < b ! j \<and> \<not> b ! j < a ! j) \<and> a ! i < b ! i)
      \<longleftrightarrow> (\<exists>i<min (length a) (length b).
         (\<forall>j<i. \<not> a ! j < b ! j \<and> \<not> b ! j < a ! j) \<and> a ! i < b ! i)"
    by auto
  then show ?thesis
    unfolding lexograph_lt_def lexograph_loop_iff by simp
qed

theorem lexograph_lt_first_ordered_pair_witness:
  "lexograph_lt [1, 2 :: int] [1, 3]
   \<and> (\<exists>i<min (length [1, 2 :: int]) (length [1, 3 :: int]).
         (\<forall>j<i. \<not> [1, 2 :: int] ! j < [1, 3] ! j \<and> \<not> [1, 3 :: int] ! j < [1, 2] ! j)
         \<and> [1, 2 :: int] ! i < [1, 3] ! i)
   \<and> (\<exists>i<min (length [NaN, Finite 1]) (length [Finite 0, Finite 2]).
         (\<forall>j<i. \<not> [NaN, Finite 1] ! j < [Finite 0, Finite 2] ! j
               \<and> \<not> [Finite 0, Finite 2] ! j < [NaN, Finite 1] ! j)
         \<and> [NaN, Finite 1] ! i < [Finite 0, Finite 2] ! i)"
proof -
  have l: "lexograph_lt [1, 2 :: int] [1, 3]"
    by (simp add: lexograph_lt_def)
  have n: "\<not> length [1, 2 :: int] < length [1, 3 :: int]"
    by simp
  have l': "lexograph_lt [NaN, Finite 1] [Finite 0, Finite 2]"
    by (simp add: lexograph_lt_def)
  have n': "\<not> length [NaN, Finite 1] < length [Finite 0, Finite 2]"
    by simp
  from l n lexograph_lt_first_ordered_pair [of "[1, 2 :: int]" "[1, 3]"]
  have 1: "\<exists>i<min (length [1, 2 :: int]) (length [1, 3 :: int]).
         (\<forall>j<i. \<not> [1, 2 :: int] ! j < [1, 3] ! j \<and> \<not> [1, 3 :: int] ! j < [1, 2] ! j)
         \<and> [1, 2 :: int] ! i < [1, 3] ! i"
    by blast
  from l' n' lexograph_lt_first_ordered_pair [of "[NaN, Finite 1]" "[Finite 0, Finite 2]"]
  have 2: "\<exists>i<min (length [NaN, Finite 1]) (length [Finite 0, Finite 2]).
         (\<forall>j<i. \<not> [NaN, Finite 1] ! j < [Finite 0, Finite 2] ! j
               \<and> \<not> [Finite 0, Finite 2] ! j < [NaN, Finite 1] ! j)
         \<and> [NaN, Finite 1] ! i < [Finite 0, Finite 2] ! i"
    by blast
  from l 1 2 show ?thesis by blast
qed

section \<open>Element access\<close>

lemma getitem_int_in_range:
  assumes "- int (len_ra s) \<le> i" "i < int (len_ra s)"
  shows "getitem_int s i =
     Inr (if spec_row_start s (spec_index (len_ra s) i) = spec_row_stop s (spec_index (len_ra s) i)
          then Nan else Arr (spec_row s (spec_index (len_ra s) i)))"
proof -
  define j where "j = (if i < 0 then i + int (len_ra s) else i)"
  have j: "0 \<le> j" "j < int (len_ra s)"
    using assms by (auto simp: j_def)
  have c: "(j + 1 \<le> int (len_ra s) - 1) = (nat j < len_ra s - 1)"
    using j by auto
  have n: "nat (j + 1) = nat j + 1"
    using j by auto
  show ?thesis
    using assms
    unfolding getitem_int_def Let_def spec_row_def spec_row_start_def spec_row_stop_def
      spec_index_def j_def [symmetric] c n
    by auto
qed

lemma getitem_int_out_of_range:
  "\<not> (- int (len_ra s) \<le> i \<and> i < int (len_ra s)) \<Longrightarrow>
   getitem_int s i = Inl (IndexError (OutOfBounds i))"
  by (auto simp: getitem_int_def)

text \<open>
  C4. For a store of \<open>N\<close> rows and an integer \<open>i\<close>: when \<open>-N \<le> i < N\<close>, \<open>get(i)\<close>
  returns the subrange \<open>values[start:stop]\<close> of the row that \<open>i\<close> names (a negative
  \<open>i\<close> counted from the end), and returns the missing sentinel exactly when
  \<open>start = stop\<close>; otherwise it raises \<open>IndexError\<close>.
\<close>

theorem getitem_int_spec:
  "(- int (len_ra s) \<le> i \<and> i < int (len_ra s) \<longrightarrow>
      getitem_int s i =
        Inr (if spec_row_start s (spec_index (len_ra s) i) = spec_row_stop s (spec_index (len_ra s) i)
             then Nan else Arr (spec_row s (spec_index (len_ra s) i))))
   \<and> (\<not> (- int (len_ra s) \<le> i \<and> i < int (len_ra s)) \<longrightarrow>
      getitem_int s i = Inl (IndexError (OutOfBounds i)))"
proof (intro conjI impI)
  assume "- int (len_ra s) \<le> i \<and> i < int (len_ra s)"
  then show "getitem_int s i =
        Inr (if spec_row_start s (spec_index (len_ra s) i) = spec_row_stop s (spec_index (len_ra s) i)
             then Nan else Arr (spec_row s (spec_index (len_ra s) i)))"
    by (intro getitem_int_in_range) simp_all
next
  assume "\<not> (- int (len_ra s) \<le> i \<and> i < int (len_ra s))"
  then show "getitem_int s i = Inl (IndexError (OutOfBounds i))"
    by (rule getitem_int_out_of_range)
qed

theorem getitem_int_spec_witness:
  "getitem_int example_store (- 1) = Inr (Arr [3])
   \<and> getitem_int example_store 1 = Inr Nan
   \<and> getitem_int example_store 4 = Inl (IndexError (OutOfBounds 4))
   \<and> getitem_int example_store (- 5) = Inl (IndexError (OutOfBounds (- 5)))"
proof -
  have n: "len_ra example_store = 4"
    by (simp add: len_ra_def example_store_def)
  have a: "getitem_int example_store (- 1) = Inr (Arr [3])"
    using getitem_int_spec [of example_store "- 1"] unfolding n
    by (simp add: spec_index_def spec_row_def spec_row_start_def spec_row_stop_def
        py_slice_def example_store_def len_ra_def)
  have b: "getitem_int example_store 1 = Inr Nan"
    using getitem_int_spec [of example_store 1] unfolding n
    by (simp add: spec_index_def spec_row_def spec_row_start_def spec_row_stop_def
        py_slice_def example_store_def len_ra_def)
  have c: "getitem_int example_store 4 = Inl (IndexError (OutOfBounds 4))"
    using getitem_int_spec [of example_store 4] unfolding n by simp
  have d: "getitem_int example_store (- 5) = Inl (IndexError (OutOfBounds (- 5)))"
    using getitem_int_spec [of example_store "- 5"] unfolding n by simp
  from a b c d show ?thesis by simp
qed

section \<open>Store against store equality\<close>

lemma np_array_equal_iff: "np_array_equal a b \<longleftrightarrow> a = b"
  unfolding np_array_equal_def list_all_iff
  by (auto simp: list_eq_iff_zip_eq)

lemma eq_step_eq:
  assumes "length si2 = length si1"
  shows "eq_step si1 fa1 si2 fa2 i result =
      result[i := (spec_row \<lparr>start_indices = \<lparr>dtype = d1, items = si1\<rparr>, flat_array = fa1\<rparr> i
                 = spec_row \<lparr>start_indices = \<lparr>dtype = d2, items = si2\<rparr>, flat_array = fa2\<rparr> i)]"
  using assms
  by (simp add: eq_step_def Let_def np_array_equal_iff spec_row_def spec_row_start_def
      spec_row_stop_def len_ra_def)

lemma fold_update_upt:
  "k \<le> length result \<Longrightarrow>
   fold (\<lambda>i r. r[i := g i]) [0..<k] result = map g [0..<k] @ drop k result"
proof (induction k)
  case 0
  then show ?case by simp
next
  case (Suc k)
  then have "fold (\<lambda>i r. r[i := g i]) [0..<Suc k] result =
      (map g [0..<k] @ drop k result)[k := g k]"
    by simp
  also have "\<dots> = map g [0..<k] @ (drop k result)[0 := g k]"
    by (simp add: list_update_append)
  also have "(drop k result)[0 := g k] = g k # drop (Suc k) result"
    using Suc.prems by (metis Cons_nth_drop_Suc Suc_le_lessD list_update_code(2))
  finally show ?case by simp
qed

lemma eq_ragged_ragged_map:
  assumes "len_ra b = len_ra a"
  shows "eq_ragged_ragged a b = map (\<lambda>i. spec_row a i = spec_row b i) [0..<len_ra a]"
proof -
  have l: "length (items (start_indices b)) = length (items (start_indices a))"
    using assms by (simp add: len_ra_def)
  have a: "\<lparr>start_indices = \<lparr>dtype = dtype (start_indices a), items = items (start_indices a)\<rparr>,
            flat_array = flat_array a\<rparr> = a"
    by simp
  have b: "\<lparr>start_indices = \<lparr>dtype = dtype (start_indices b), items = items (start_indices b)\<rparr>,
            flat_array = flat_array b\<rparr> = b"
    by simp
  have step:
    "eq_step (items (start_indices a)) (flat_array a) (items (start_indices b)) (flat_array b)
       = (\<lambda>i r. r[i := (spec_row a i = spec_row b i)])"
    using eq_step_eq [OF l, of "flat_array a" "flat_array b" _ _
        "dtype (start_indices a)" "dtype (start_indices b)"]
    unfolding a b by (intro ext)
  show ?thesis
    unfolding eq_ragged_ragged_def Let_def step
    by (subst fold_update_upt) (simp_all add: len_ra_def)
qed

text \<open>
  C7. For two stores with the same number \<open>N\<close> of rows, \<open>==\<close> returns a mask of length
  \<open>N\<close> whose entry \<open>i\<close> is true exactly when row \<open>i\<close>'s subrange of the first store
  equals row \<open>i\<close>'s subrange of the second (same length, same elements); for two stores
  with different numbers of rows it raises the \<open>ValueError\<close> that reports both
  lengths.
\<close>

theorem eq_ra_spec:
  "(len_ra a = len_ra b \<longrightarrow>
      (\<exists>result. eq_ra a b = Inr result \<and> length result = len_ra a
         \<and> (\<forall>i<len_ra a. result ! i \<longleftrightarrow> spec_row a i = spec_row b i)))
   \<and> (len_ra a \<noteq> len_ra b \<longrightarrow>
      eq_ra a b = Inl (ValueError (UnequalLength (len_ra a) (len_ra b))))"
proof (intro conjI impI)
  assume n: "len_ra a = len_ra b"
  then have "eq_ra a b = Inr (map (\<lambda>i. spec_row a i = spec_row b i) [0..<len_ra a])"
    by (simp add: eq_ra_def eq_ragged_ragged_map)
  then show "\<exists>result. eq_ra a b = Inr result \<and> length result = len_ra a
         \<and> (\<forall>i<len_ra a. result ! i \<longleftrightarrow> spec_row a i = spec_row b i)"
    by simp
next
  assume "len_ra a \<noteq> len_ra b"
  then show "eq_ra a b = Inl (ValueError (UnequalLength (len_ra a) (len_ra b)))"
    by (simp add: eq_ra_def)
qed

theorem eq_ra_spec_witness:
  "len_ra example_store = len_ra example_store2
   \<and> (\<exists>result. eq_ra example_store example_store2 = Inr result \<and> length result = 4
         \<and> result ! 0 \<and> \<not> result ! 1)
   \<and> eq_ra example_store one_row_store = Inl (ValueError (UnequalLength 4 1))"
proof -
  have n: "len_ra example_store = 4" "len_ra example_store2 = 4" "len_ra one_row_store = 1"
    by (simp_all add: len_ra_def example_store_def example_store2_def one_row_store_def)
  have r0: "spec_row example_store 0 = spec_row example_store2 0"
    by (simp add: spec_row_def spec_row_start_def spec_row_stop_def py_slice_def len_ra_def
        example_store_def example_store2_def)
  have r1: "spec_row example_store 1 \<noteq> spec_row example_store2 1"
    by (simp add: spec_row_def spec_row_start_def spec_row_stop_def py_slice_def len_ra_def
        example_store_def example_store2_def)
  from eq_ra_spec [of example_store example_store2] n
  obtain result where r: "eq_ra example_store example_store2 = Inr result" "length result = 4"
    "\<forall>i<4. result ! i \<longleftrightarrow> spec_row example_store i = spec_row example_store2 i"
    by auto
  from r(3) r0 r1 have "result ! 0" "\<not> result ! 1" by auto
  moreover from eq_ra_spec [of example_store one_row_store] n
  have "eq_ra example_store one_row_store = Inl (ValueError (UnequalLength 4 1))" by simp
  ultimately show ?thesis using n r by auto
qed

section \<open>Construction from a list of rows\<close>

lemma len_or_0_row_values: "(if \<not> missing r then len_or_0 r else 0) = length (row_values r)"
  by (cases r) simp_all

lemma length_row_starts [simp]: "length (row_starts s rows) = length rows"
  by (induction rows arbitrary: s) simp_all

lemma flat_of_simps [simp]:
  "flat_of [] = []" "flat_of (r # rs) = row_values r @ flat_of rs"
  by (simp_all add: flat_of_def)

lemma flat_of_append [simp]: "flat_of (xs @ ys) = flat_of xs @ flat_of ys"
  by (simp add: flat_of_def)

lemma sum_list_lens: "sum_list (map (\<lambda>datum. if \<not> missing datum then len_or_0 datum else 0) rows) = length (flat_of rows)"
  by (induction rows) (simp_all add: len_or_0_row_values)


lemma assign_slice_storable:
  assumes "dt = FloatKind \<or> \<not> missing r" "nxt + length (row_values r) \<le> length fa"
  shows "assign_slice dt fa nxt (nxt + length (row_values r)) r =
           Inr (take nxt fa @ row_values r @ drop (nxt + length (row_values r)) fa)"
  using assms by (cases r) (simp_all add: assign_slice_def)

lemma populate_result:
  "i + length rows \<le> length si \<Longrightarrow> nxt + length (flat_of rows) \<le> length fa \<Longrightarrow>
   dt = FloatKind \<or> (\<forall>r\<in>set rows. \<not> missing r) \<Longrightarrow>
   populate dt rows i nxt si fa =
     Inr (take i si @ row_starts nxt rows @ drop (i + length rows) si,
          take nxt fa @ flat_of rows @ drop (nxt + length (flat_of rows)) fa)"
proof (induction rows arbitrary: i nxt si fa)
  case Nil
  then show ?case by simp
next
  case (Cons r rs)
  let ?n = "length (row_values r)"
  let ?si = "si[i := nxt]"
  let ?fa = "take nxt fa @ row_values r @ drop (nxt + ?n) fa"
  have i: "i < length si" using Cons.prems by simp
  have fits: "nxt + ?n \<le> length fa" using Cons.prems by simp
  have lfa: "length ?fa = length fa"
    using fits by simp
  have st: "dt = FloatKind \<or> \<not> missing r" using Cons.prems by auto
  have step: "populate dt (r # rs) i nxt si fa = populate dt rs (Suc i) (nxt + ?n) ?si ?fa"
    using assign_slice_storable [OF st fits]
    by (simp add: len_or_0_row_values Let_def)
  have ih: "populate dt rs (Suc i) (nxt + ?n) ?si ?fa =
     Inr (take (Suc i) ?si @ row_starts (nxt + ?n) rs @ drop (Suc i + length rs) ?si,
          take (nxt + ?n) ?fa @ flat_of rs @ drop (nxt + ?n + length (flat_of rs)) ?fa)"
    using Cons.prems lfa by (intro Cons.IH) (auto simp del: append_assoc)
  have a: "take (Suc i) ?si = take i si @ [nxt]"
    using i by (simp add: take_Suc_conv_app_nth)
  have b: "drop (Suc i + length rs) ?si = drop (i + length (r # rs)) si"
    by simp
  have c: "take (nxt + ?n) ?fa = take nxt fa @ row_values r"
    using fits by simp
  have d: "drop (nxt + ?n + length (flat_of rs)) ?fa = drop (nxt + length (flat_of (r # rs))) fa"
    using Cons.prems by (simp add: ac_simps)
  show ?case
    unfolding step ih a b c d by simp
qed

lemma populate_error:
  "populate dt rows i nxt si fa = Inl e \<Longrightarrow>
   dt = IntKind \<and> (\<exists>r\<in>set rows. missing r)
   \<and> (e = TypeError NoneToInteger \<or> e = ValueError NaNToInteger)"
proof (induction rows arbitrary: i nxt si fa)
  case Nil
  then show ?case by simp
next
  case (Cons r rs)
  show ?case
  proof (cases "assign_slice dt fa nxt (nxt + length (row_values r)) r")
    case (Inl e')
    with Cons.prems have "e' = e" by (simp add: len_or_0_row_values Let_def)
    with Inl show ?thesis
      by (cases r; cases dt) (auto simp: assign_slice_def split: if_splits)
  next
    case (Inr fa')
    with Cons.prems have
      "populate dt rs (Suc i) (nxt + length (row_values r)) (si[i := nxt]) fa' = Inl e"
      by (simp add: len_or_0_row_values Let_def)
    from Cons.IH [OF this] show ?thesis by auto
  qed
qed

lemma populate_integer_missing:
  "\<exists>r\<in>set rows. missing r \<Longrightarrow>
   \<exists>e. populate IntKind rows i nxt si fa = Inl e"
proof (induction rows arbitrary: i nxt si fa)
  case Nil
  then show ?case by simp
next
  case (Cons r rs)
  show ?case
  proof (cases "missing r")
    case True
    then show ?thesis
      by (cases r) (simp_all add: assign_slice_def Let_def)
  next
    case False
    with Cons.prems have "\<exists>r\<in>set rs. missing r" by auto
    from Cons.IH [OF this] False show ?thesis
      by (cases r) (simp_all add: assign_slice_def Let_def)
  qed
qed

lemma RaggedArray_init_Rows:
  assumes "length rows \<le> 2 ^ 63 - 1" "length (flat_of rows) \<le> 2 ^ 63 - 1"
    "infer_dtype d rows k = FloatKind \<or> (\<forall>r\<in>set rows. \<not> missing r)"
  shows "RaggedArray_init (Rows rows k) d =
     Inr \<lparr>start_indices = \<lparr>dtype = start_indices_dtype (length (flat_of rows)),
                            items = row_starts 0 rows\<rparr>,
          flat_array = flat_of rows\<rparr>"
proof -
  have "populate (infer_dtype d rows k) rows 0 0 (replicate (length rows) 0)
          (replicate (length (flat_of rows)) 0)
      = Inr (row_starts 0 rows, flat_of rows)"
    using assms(3) by (subst populate_result) simp_all
  then show ?thesis
    using assms(1,2) by (simp add: RaggedArray_init_def sum_list_lens np_zeros_def not_less [symmetric])
qed



lemma RaggedArray_init_Rows_integer_missing:
  assumes "length rows \<le> 2 ^ 63 - 1" "length (flat_of rows) \<le> 2 ^ 63 - 1"
    "infer_dtype d rows k = IntKind" "\<exists>r\<in>set rows. missing r"
  shows "RaggedArray_init (Rows rows k) d = Inl (TypeError NoneToInteger)
           \<or> RaggedArray_init (Rows rows k) d = Inl (ValueError NaNToInteger)"
proof -
  from populate_integer_missing [OF assms(4)] obtain e where
    e: "populate IntKind rows 0 0 (replicate (length rows) 0)
          (replicate (length (flat_of rows)) (0::'a)) = Inl e"
    by blast
  from populate_error [OF e] have "e = TypeError NoneToInteger \<or> e = ValueError NaNToInteger"
    by simp
  moreover have "RaggedArray_init (Rows rows k) d = Inl e"
    using assms(1-3) e
    by (simp add: RaggedArray_init_def sum_list_lens np_zeros_def not_less [symmetric])
  ultimately show ?thesis by auto
qed

lemma row_starts_nth:
  "k < length rows \<Longrightarrow> row_starts s rows ! k = s + length (flat_of (take k rows))"
proof (induction rows arbitrary: s k)
  case Nil
  then show ?case by simp
next
  case (Cons r rs)
  then show ?case by (cases k) simp_all
qed

lemma py_slice_flat_of:
  assumes "k < length rows"
  shows "py_slice (flat_of rows) (length (flat_of (take k rows)))
           (length (flat_of (take (Suc k) rows))) = row_values (rows ! k)"
proof -
  have "rows = take k rows @ rows ! k # drop (Suc k) rows"
    using assms by (simp add: id_take_nth_drop)
  then have f: "flat_of rows = flat_of (take k rows) @ row_values (rows ! k) @ flat_of (drop (Suc k) rows)"
    by (metis flat_of_append flat_of_simps(2))
  have t: "flat_of (take (Suc k) rows) = flat_of (take k rows) @ row_values (rows ! k)"
    using assms by (simp add: take_Suc_conv_app_nth)
  show ?thesis
    unfolding py_slice_def t by (subst f) simp
qed

lemma getitem_int_init_Rows:
  assumes "k < length rows"
  shows "getitem_int \<lparr>start_indices = \<lparr>dtype = d, items = row_starts 0 rows\<rparr>, flat_array = flat_of rows\<rparr> (int k)
     = Inr (if row_values (rows ! k) = [] then Nan else Arr (row_values (rows ! k)))"
proof -
  let ?s = "\<lparr>start_indices = \<lparr>dtype = d, items = row_starts 0 rows\<rparr>, flat_array = flat_of rows\<rparr>"
  let ?a = "length (flat_of (take k rows))"
  let ?b = "length (flat_of (take (Suc k) rows))"
  have n: "len_ra ?s = length rows" by (simp add: len_ra_def)
  have start: "row_starts 0 rows ! k = ?a"
    using assms by (simp add: row_starts_nth)
  have len: "?b = ?a + length (row_values (rows ! k))"
    using assms by (simp add: take_Suc_conv_app_nth)
  have sl: "py_slice (flat_of rows) ?a ?b = row_values (rows ! k)"
    using assms by (rule py_slice_flat_of)
  have g: "getitem_int ?s (int k) = Inr (if ?b \<noteq> ?a then Arr (py_slice (flat_of rows) ?a ?b) else Nan)"
  proof (cases "Suc k < length rows")
    case True
    then have "nat (int k + 1) = Suc k" "int k + 1 \<le> int (length rows) - 1" by simp_all
    with True assms show ?thesis
      unfolding getitem_int_def n Let_def
      by (simp add: start row_starts_nth del: of_nat_Suc)
  next
    case False
    with assms have e: "Suc k = length rows" by simp
    then have "\<not> int k + 1 \<le> int (length rows) - 1" by simp
    with assms e show ?thesis
      unfolding getitem_int_def n Let_def
      by (simp add: start del: of_nat_Suc)
  qed
  show ?thesis
    unfolding g sl by (simp add: len)
qed

lemma total_len_flat_of: "total_len rows = length (flat_of rows)"
  by (induction rows) (simp_all add: total_len_def)

lemma start_indices_dtype_eq:
  "start_indices_dtype m =
     (if m \<le> 2 ^ 8 - 1 then UInt 8
      else if m \<le> 2 ^ 16 - 1 then UInt 16
      else if m \<le> 2 ^ 32 - 1 then UInt 32
      else UInt 64)"
  by (simp add: start_indices_dtype_def Let_def)


text \<open>Integer rows with a missing one, \<open>RaggedArray([[1, 2], None])\<close>: the buffer is
  an integer buffer and writing \<open>None\<close> into it raises.\<close>

lemma init_rows_integer_missing_example:
  "RaggedArray_init (Rows int_rows IntKind) None = Inl (TypeError NoneToInteger)"
  by (simp add: RaggedArray_init_def int_rows_def np_zeros_def infer_dtype_def
      assign_slice_def)




section \<open>\<open>take\<close>\<close>

lemma row_values_spec_get: "row_values (spec_get s j) = spec_row s j"
  by (simp add: spec_get_def spec_row_def py_slice_def)

lemma getitem_int_nat:
  "j < len_ra s \<Longrightarrow> getitem_int s (int j) = Inr (spec_get s j)"
  using getitem_int_in_range [of s "int j"] by (simp add: spec_index_def spec_get_def)

lemma spec_row_init_Rows:
  assumes "k < length rows"
  shows "spec_row \<lparr>start_indices = \<lparr>dtype = d, items = row_starts 0 rows\<rparr>, flat_array = flat_of rows\<rparr> k
     = row_values (rows ! k)"
proof -
  let ?s = "\<lparr>start_indices = \<lparr>dtype = d, items = row_starts 0 rows\<rparr>, flat_array = flat_of rows\<rparr>"
  have "getitem_int ?s (int k) = Inr (spec_get ?s k)"
    using assms by (intro getitem_int_nat) (simp add: len_ra_def)
  then have "spec_get ?s k = (if row_values (rows ! k) = [] then Nan else Arr (row_values (rows ! k)))"
    using getitem_int_init_Rows [OF assms, of d] by simp
  then have "row_values (spec_get ?s k) = row_values (rows ! k)"
    by simp
  then show ?thesis by (simp add: row_values_spec_get)
qed

lemma init_Rows_rows:
  assumes "length rows \<le> 2 ^ 63 - 1" "total_len rows \<le> 2 ^ 63 - 1"
    "dt = FloatKind \<or> (\<forall>r\<in>set rows. \<not> missing r)"
  shows "\<exists>r. RaggedArray_init (Rows rows dt) (Some dt) = Inr r \<and> len_ra r = length rows
       \<and> (\<forall>t<length rows. spec_row r t = row_values (rows ! t))"
proof -
  have "infer_dtype (Some dt) rows dt = dt"
    by (simp add: infer_dtype_def)
  with assms have "RaggedArray_init (Rows rows dt) (Some dt) =
     Inr \<lparr>start_indices = \<lparr>dtype = start_indices_dtype (length (flat_of rows)),
                            items = row_starts 0 rows\<rparr>,
          flat_array = flat_of rows\<rparr>"
    by (intro RaggedArray_init_Rows) (simp_all add: total_len_flat_of)
  then show ?thesis
    by (simp add: len_ra_def spec_row_init_Rows)
qed










text \<open>The integer store used below is the one the constructor builds from
  \<open>[[1, 2], [], [3]]\<close> with \<open>dtype='int64'\<close>: an empty list is an array, not a
  missing value, and is written without error.\<close>

lemma int_store_built:
  "RaggedArray_init (Rows [Arr [1, 2], Arr [], Arr [3]] IntKind) (Some IntKind) = Inr int_store"
  by (simp add: RaggedArray_init_def np_zeros_def infer_dtype_def assign_slice_def
      start_indices_dtype_eq int_store_def)

text \<open>
  C5. The claim: with \<open>allow_fill=True\<close> and no index below \<open>-1\<close>, every index
  \<open>-1\<close> yields \<open>fill_value\<close> (a missing row for the default \<open>None\<close>) and every
  non-negative index yields that row. On a store with a float buffer the code does so
  (lemma \<open>take_fill_rows\<close>).
  On a store with an integer buffer it cannot write a missing value: the default fill
  \<open>None\<close> raises \<open>TypeError\<close>, the fill \<open>np.nan\<close> raises \<open>ValueError\<close>, and so
  does an empty row of the store itself, which \<open>__getitem__\<close> hands back as
  \<open>np.nan\<close>; none of these has an index below \<open>-1\<close>.
\<close>

theorem take_fill_integer_store:
  "take_ra IntKind int_store [- 1] True PyNone = Inl (TypeError NoneToInteger)
   \<and> take_ra IntKind int_store [0, - 1] True Nan = Inl (ValueError NaNToInteger)
   \<and> take_ra IntKind int_store [1] True (Arr [9]) = Inl (ValueError NaNToInteger)
   \<and> take_ra FloatKind three_row_store [0, - 1] True PyNone =
       Inr \<lparr>start_indices = \<lparr>dtype = UInt 8, items = [0, 1]\<rparr>, flat_array = [1]\<rparr>"
  by (simp add: take_ra_def RaggedArray_init_def np_zeros_def infer_dtype_def assign_slice_def
      start_indices_dtype_eq getitem_int_def len_ra_def py_slice_def int_store_def
      three_row_store_def)

theorem take_fill_integer_store_witness:
  "\<forall>r. take_ra IntKind int_store [- 1] True PyNone \<noteq> Inr r"
  using take_fill_integer_store by simp




section \<open>Selection by a boolean mask\<close>

lemma positions_from_filter:
  "positions_from i item = map (\<lambda>j. j + i) (filter (\<lambda>j. item ! j) [0..<length item])"
proof (induction item arbitrary: i)
  case Nil
  then show ?case by simp
next
  case (Cons m rest)
  have u: "[0..<length (m # rest)] = 0 # map Suc [0..<length rest]"
    by (simp add: upt_conv_Cons map_Suc_upt del: upt_Suc)
  have f: "filter (\<lambda>j. (b # rest) ! j) (map Suc [0..<length rest])
      = map Suc (filter (\<lambda>j. rest ! j) [0..<length rest])" for b
    by (simp add: filter_map comp_def)
  show ?case
    unfolding u by (simp add: Cons.IH comp_def f)
qed

lemma mask_loop_in_range:
  "i + length item \<le> len_ra s \<Longrightarrow>
   mask_loop s i item data = Inr (data @ map (spec_get s) (positions_from i item))"
proof (induction item arbitrary: i data)
  case Nil
  then show ?case by simp
next
  case (Cons m rest)
  then have "i < len_ra s" "Suc i + length rest \<le> len_ra s" by simp_all
  then show ?case
    using Cons.IH [of "Suc i"] by (simp add: getitem_int_nat)
qed

lemma mask_loop_out_of_range:
  "\<exists>j<length item. item ! j \<and> len_ra s \<le> i + j \<Longrightarrow>
   \<exists>j<length item. item ! j \<and> len_ra s \<le> i + j
      \<and> mask_loop s i item data = Inl (IndexError (OutOfBounds (int (i + j))))"
proof (induction item arbitrary: i data)
  case Nil
  then show ?case by simp
next
  case (Cons m rest)
  from Cons.prems obtain j where j: "j < length (m # rest)" "(m # rest) ! j" "len_ra s \<le> i + j"
    by blast
  show ?case
  proof (cases "m \<and> len_ra s \<le> i")
    case True
    then have "mask_loop s i (m # rest) data = Inl (IndexError (OutOfBounds (int i)))"
      using getitem_int_out_of_range [of s "int i"] by simp
    with True have "0 < length (m # rest) \<and> (m # rest) ! 0 \<and> len_ra s \<le> i + 0
       \<and> mask_loop s i (m # rest) data = Inl (IndexError (OutOfBounds (int (i + 0))))"
      by simp
    then show ?thesis by blast
  next
    case False
    with j have "j \<noteq> 0" by (cases j) auto
    then obtain k where k: "j = Suc k" by (cases j) auto
    with j have "\<exists>k<length rest. rest ! k \<and> len_ra s \<le> Suc i + k" by auto
    from Cons.IH [OF this] have ih: "\<And>data. \<exists>k<length rest. rest ! k \<and> len_ra s \<le> Suc i + k
        \<and> mask_loop s (Suc i) rest data = Inl (IndexError (OutOfBounds (int (Suc i + k))))" .
    have "\<exists>data'. mask_loop s i (m # rest) data = mask_loop s (Suc i) rest data'"
    proof (cases m)
      case True
      with False have "i < len_ra s" by simp
      with True have "mask_loop s i (m # rest) data =
          mask_loop s (Suc i) rest (data @ [spec_get s i])"
        by (simp add: getitem_int_nat)
      then show ?thesis ..
    next
      case False
      then have "mask_loop s i (m # rest) data = mask_loop s (Suc i) rest data" by simp
      then show ?thesis ..
    qed
    then obtain data' where d: "mask_loop s i (m # rest) data = mask_loop s (Suc i) rest data'" ..
    from ih [of data'] obtain k where
      "k < length rest" "rest ! k" "len_ra s \<le> Suc i + k"
      "mask_loop s (Suc i) rest data' = Inl (IndexError (OutOfBounds (int (Suc i + k))))"
      by blast
    with d have "Suc k < length (m # rest) \<and> (m # rest) ! Suc k \<and> len_ra s \<le> i + Suc k
       \<and> mask_loop s i (m # rest) data = Inl (IndexError (OutOfBounds (int (i + Suc k))))"
      by simp
    then show ?thesis by blast
  qed
qed


lemma getitem_mask_rows:
  assumes "length item \<le> len_ra s"
  shows "getitem_mask dt s item = RaggedArray_init (Rows (spec_mask_rows s item) dt) (Some dt)"
  using mask_loop_in_range [of 0 item s "[]"] assms
  by (simp add: getitem_mask_def positions_from_filter spec_mask_rows_def)

lemma getitem_mask_in_range:
  assumes "length item \<le> len_ra s"
    "length (spec_mask_rows s item) \<le> 2 ^ 63 - 1" "total_len (spec_mask_rows s item) \<le> 2 ^ 63 - 1"
    "dt = FloatKind \<or> (\<forall>r\<in>set (spec_mask_rows s item). \<not> missing r)"
  shows "\<exists>r. getitem_mask dt s item = Inr r
         \<and> len_ra r = length (filter (\<lambda>j. item ! j) [0..<length item])
         \<and> (\<forall>t<length (filter (\<lambda>j. item ! j) [0..<length item]).
               spec_row r t = spec_row s (filter (\<lambda>j. item ! j) [0..<length item] ! t))"
proof -
  let ?sel = "filter (\<lambda>j. item ! j) [0..<length item]"
  have l: "length (spec_mask_rows s item) = length ?sel"
    by (simp add: spec_mask_rows_def)
  from init_Rows_rows [OF assms(2-4)] l obtain r where
    "RaggedArray_init (Rows (spec_mask_rows s item) dt) (Some dt) = Inr r" "len_ra r = length ?sel"
    "\<forall>t<length ?sel. spec_row r t = row_values (spec_mask_rows s item ! t)"
    by auto
  then show ?thesis
    using getitem_mask_rows [OF assms(1), of dt]
    by (simp add: spec_mask_rows_def row_values_spec_get)
qed

lemma getitem_mask_out_of_range:
  assumes "\<exists>j<length item. item ! j \<and> len_ra s \<le> j"
  shows "\<exists>j<length item. item ! j \<and> len_ra s \<le> j
         \<and> getitem_mask dt s item = Inl (IndexError (OutOfBounds (int j)))"
proof -
  from assms have "\<exists>j<length item. item ! j \<and> len_ra s \<le> 0 + j" by simp
  from mask_loop_out_of_range [OF this, of "[]"] show ?thesis
    by (auto simp: getitem_mask_def)
qed

text \<open>
  C10. The claim: a mask shorter than the store returns, without raising, a new store of
  the rows at its true positions. On a store with a float buffer the code does so (lemma
  \<open>getitem_mask_in_range\<close>). On a store with an integer buffer a selected empty row
  comes back from \<open>__getitem__\<close> as \<open>np.nan\<close>, which the constructor cannot write
  into the new integer buffer: the selection raises \<open>ValueError\<close>.
\<close>

theorem getitem_mask_integer_store:
  "length [True, True] < len_ra int_store
   \<and> getitem_mask IntKind int_store [True, True] = Inl (ValueError NaNToInteger)
   \<and> getitem_mask FloatKind three_row_store [True, True] =
       Inr \<lparr>start_indices = \<lparr>dtype = UInt 8, items = [0, 1]\<rparr>, flat_array = [1, 2]\<rparr>"
  by (simp add: getitem_mask_def RaggedArray_init_def np_zeros_def infer_dtype_def
      assign_slice_def start_indices_dtype_eq getitem_int_def len_ra_def py_slice_def
      int_store_def three_row_store_def)

theorem getitem_mask_integer_store_witness:
  "\<forall>r. getitem_mask IntKind int_store [True, True] \<noteq> Inr r"
  using getitem_mask_integer_store by simp

section \<open>Validation of a raw pair of buffers\<close>

text \<open>The validator accepts exactly the pairs of a 1-D unsigned offsets array and a 1-D
  value array in which no offset exceeds the length of the values. On an offending offset
  it reports all offending values when there are at most ten offsets, and raises
  \<open>IndexError\<close> when there are more.\<close>

lemma validate_accepts_iff:
  "(\<exists>r. validate_ragged_properties si fa = Inr r) \<longleftrightarrow>
     (\<exists>a f. si = Ndarray 1 a \<and> kind (dtype a) = CHR ''u'' \<and> fa = Ndarray 1 f
        \<and> (\<forall>x\<in>set (items a). x \<le> length f))"
proof (cases si)
  case NotNdarray
  then show ?thesis by (simp add: validate_ragged_properties_def)
next
  case si: (Ndarray nd a)
  show ?thesis
  proof (cases fa)
    case NotNdarray
    with si show ?thesis by (simp add: validate_ragged_properties_def)
  next
    case fa: (Ndarray nd' f)
    have "(\<exists>x\<in>set (items a). length f < x) \<longleftrightarrow> \<not> (\<forall>x\<in>set (items a). x \<le> length f)"
      by (simp add: not_le)
    then show ?thesis
      unfolding si fa
      by (simp add: validate_ragged_properties_def Let_def list_ex_iff np_bool_index_def
          split: sum.splits)
  qed
qed

lemma init_Dict_accepts:
  assumes "kind (dtype a) = CHR ''u''" "\<forall>x\<in>set (items a). x \<le> length f"
  shows "RaggedArray_init (Dict (Ndarray 1 a) (Ndarray 1 f)) None =
           Inr \<lparr>start_indices = a, flat_array = f\<rparr>"
  using assms
  by (auto simp: RaggedArray_init_def validate_ragged_properties_def Let_def list_ex_iff not_less)

lemma filter_zip_map_fst:
  "map fst (filter snd (zip xs (map P xs))) = filter P xs"
  by (induction xs) simp_all

lemma validate_reports_up_to_ten:
  assumes "kind (dtype a) = CHR ''u''" "length (items a) \<le> 10" "\<exists>x\<in>set (items a). x > length f"
  shows "validate_ragged_properties (Ndarray 1 a) (Ndarray 1 f) =
           Inl (ValueError (InvalidStartIndices (length f)
                  (filter (\<lambda>x. x > length f) (items a))))"
  using assms
  by (auto simp: validate_ragged_properties_def Let_def list_ex_iff np_bool_index_def
      filter_zip_map_fst)

lemma validate_index_error_beyond_ten:
  assumes "kind (dtype a) = CHR ''u''" "length (items a) > 10" "\<exists>x\<in>set (items a). x > length f"
  shows "validate_ragged_properties (Ndarray 1 a) (Ndarray 1 f) =
           Inl (IndexError (BooleanIndexMismatch (length (items a)) 10))"
  using assms
  by (auto simp: validate_ragged_properties_def Let_def list_ex_iff np_bool_index_def)

text \<open>
  C6. The claim: construction from a raw pair fails, on an offset beyond the buffer, with
  the \<open>ValueError\<close> that reports the first offending offset and the buffer length. The
  code builds that report from \<open>start_indices[invalid_inds[:10]]\<close>: the mask is cut to
  ten items before it indexes the whole array. With eleven offsets, the last one
  \<open>5\<close> and an empty value buffer, the indexing itself raises \<open>IndexError\<close>, and no
  report is made.
\<close>

theorem validate_report_lost:
  "validate_ragged_properties (Ndarray 1 eleven_offsets) (Ndarray 1 ([] :: real list))
     = Inl (IndexError (BooleanIndexMismatch 11 10))
   \<and> RaggedArray_init (Dict (Ndarray 1 eleven_offsets) (Ndarray 1 ([] :: real list))) None
     = Inl (IndexError (BooleanIndexMismatch 11 10))"
  by (simp add: RaggedArray_init_def validate_ragged_properties_def np_bool_index_def
      eleven_offsets_def)

theorem validate_report_lost_witness:
  "\<forall>vals. RaggedArray_init (Dict (Ndarray 1 eleven_offsets) (Ndarray 1 ([] :: real list))) None
      \<noteq> Inl (ValueError (InvalidStartIndices 0 vals))"
  using validate_report_lost by simp

section \<open>Concatenation\<close>

lemma replicate_append_same: "replicate m x @ replicate n x = replicate (m + n) x"
  by (simp add: replicate_add)

lemma replicate_append_one: "replicate m x @ [x] = replicate (m + 1) x"
  by (simp add: replicate_append_same [of m x 1, simplified])

text \<open>
  C1. The claim: the offsets of \<open>concat\<close>'s result are the inputs' offsets shifted by
  the length of the value buffers before them, in a width that holds them. The code adds
  the shift in the width of the input's offsets whenever the shift itself fits that
  width, and the sum wraps around: for the two stores built from \<open>[[7.0] * 200]\<close> and
  \<open>[[7.0] * 100, [7.0] * 100]\<close> the last offset is \<open>(100 + 200) mod 256 = 44\<close>, not
  \<open>300\<close>, and the result passes validation because \<open>44 \<le> 400\<close>.
\<close>

theorem concat_offsets_wrap:
  "RaggedArray_init (Rows [Arr (replicate 200 7)] FloatKind) None = Inr wide_a
   \<and> RaggedArray_init (Rows [Arr (replicate 100 7), Arr (replicate 100 7)] FloatKind) None
        = Inr wide_b
   \<and> concat_same_type [wide_a, wide_b] =
       Inr \<lparr>start_indices = \<lparr>dtype = UInt 8, items = [0, 200, 44]\<rparr>,
            flat_array = replicate 400 7\<rparr>"
proof -
  have a: "RaggedArray_init (Rows [Arr (replicate 200 7)] FloatKind) None = Inr wide_a"
    by (simp add: RaggedArray_init_Rows infer_dtype_def start_indices_dtype_eq wide_a_def)
  have b: "RaggedArray_init (Rows [Arr (replicate 100 7), Arr (replicate 100 7)] FloatKind) None
        = Inr wide_b"
    by (simp add: RaggedArray_init_Rows infer_dtype_def start_indices_dtype_eq wide_b_def
        replicate_append_same)
  have c: "concat_same_type [wide_a, wide_b] =
       Inr \<lparr>start_indices = \<lparr>dtype = UInt 8, items = [0, 200, 44]\<rparr>,
            flat_array = replicate 400 7\<rparr>"
    by (simp add: concat_same_type_def np_cumsum_def np_add_scalar_def min_scalar_type_def
        RaggedArray_init_def validate_ragged_properties_def np_bool_index_def
        wide_a_def wide_b_def replicate_append_same)
  from a b c show ?thesis by simp
qed

theorem concat_offsets_wrap_witness:
  "\<exists>s. concat_same_type [wide_a, wide_b] = Inr s
       \<and> items (start_indices s) \<noteq> [0, 0 + 200, 100 + 200]
       \<and> spec_row s 1 = [] \<and> spec_row s 2 = replicate 356 7"
proof -
  have "spec_row \<lparr>start_indices = \<lparr>dtype = UInt 8, items = [0, 200, 44]\<rparr>,
            flat_array = replicate 400 (7::real)\<rparr> 1 = []"
    by (simp add: spec_row_def spec_row_start_def spec_row_stop_def py_slice_def len_ra_def)
  moreover have "spec_row \<lparr>start_indices = \<lparr>dtype = UInt 8, items = [0, 200, 44]\<rparr>,
            flat_array = replicate 400 (7::real)\<rparr> 2 = replicate 356 7"
    by (simp add: spec_row_def spec_row_start_def spec_row_stop_def py_slice_def len_ra_def)
  ultimately show ?thesis
    using concat_offsets_wrap by simp
qed

text \<open>When no shifted offset wraps around, concatenating two or more valid stores gives
  the shifted offsets in one unsigned array, over the concatenated values.\<close>

lemma shifted_arrays_Nil [simp]: "shifted_arrays acc [] = []"
  by (simp add: shifted_arrays_def)

lemma shifted_arrays_single [simp]:
  "shifted_arrays acc [ra] = [np_add_scalar (start_indices ra) Int64 acc]"
  by (simp add: shifted_arrays_def)

lemma shifted_arrays_Cons [simp]:
  "shifted_arrays acc (ra # rb # ras) =
     np_add_scalar (start_indices ra) Int64 acc
       # shifted_arrays (acc + length (flat_array ra)) (rb # ras)"
  by (simp add: shifted_arrays_def)

lemma min_scalar_type_UInt: "\<exists>w. min_scalar_type v = UInt w"
  by (simp add: min_scalar_type_def)

lemma np_add_scalar_no_wrap:
  assumes "promote_types (dtype a) (min_scalar_type off) = UInt w"
    "kind (dtype a) = CHR ''u''" "list_all (\<lambda>x. x + off < 2 ^ w) (items a)"
  shows "np_add_scalar a Int64 off = \<lparr>dtype = UInt w, items = map (\<lambda>x. x + off) (items a)\<rparr>"
proof -
  have "map (\<lambda>x. (x + off) mod 2 ^ w) (items a) = map (\<lambda>x. x + off) (items a)"
    using assms(3) by (simp add: list_all_iff)
  then show ?thesis
    using assms(1,2) by (simp add: np_add_scalar_def Let_def)
qed

lemma shifted_arrays_no_wrap:
  "no_wrap acc ras \<Longrightarrow>
   concat (map items (shifted_arrays acc ras)) = spec_concat_items acc ras
   \<and> list_all (\<lambda>a. kind (dtype a) = CHR ''u'') (shifted_arrays acc ras)"
proof (induction ras arbitrary: acc)
  case Nil
  then show ?case by simp
next
  case (Cons ra ras)
  from Cons.prems obtain w where w:
    "promote_types (dtype (start_indices ra)) (min_scalar_type acc) = UInt w"
    "kind (dtype (start_indices ra)) = CHR ''u''"
    "list_all (\<lambda>x. x + acc < 2 ^ w) (items (start_indices ra))"
    and rest: "no_wrap (acc + length (flat_array ra)) ras"
    by (auto split: dtype.splits)
  have hd: "np_add_scalar (start_indices ra) Int64 acc =
      \<lparr>dtype = UInt w, items = map (\<lambda>x. x + acc) (items (start_indices ra))\<rparr>"
    using w by (rule np_add_scalar_no_wrap)
  show ?case
  proof (cases ras)
    case Nil
    then show ?thesis by (simp add: hd)
  next
    case (Cons rb rs)
    with Cons.IH [OF rest] show ?thesis by (simp add: hd)
  qed
qed

lemma foldl_promote_types_UInt:
  "list_all (\<lambda>d. kind d = CHR ''u'') ds \<Longrightarrow> \<exists>W. foldl promote_types (UInt w) ds = UInt W"
proof (induction ds arbitrary: w)
  case Nil
  then show ?case by simp
next
  case (Cons d ds)
  then obtain v where "d = UInt v" by (cases d) simp_all
  with Cons show ?case by simp
qed

lemma np_hstack_unsigned:
  assumes "as \<noteq> []" "list_all (\<lambda>a. kind (dtype a) = CHR ''u'') as"
  shows "\<exists>W. np_hstack as = Inr \<lparr>dtype = UInt W, items = concat (map items as)\<rparr>"
proof (cases as)
  case Nil
  with assms show ?thesis by simp
next
  case (Cons a rest)
  with assms obtain w where "dtype a = UInt w" by (cases "dtype a") simp_all
  moreover have "list_all (\<lambda>d. kind d = CHR ''u'') (map dtype rest)"
    using assms Cons by (simp add: list_all_iff)
  ultimately show ?thesis
    using foldl_promote_types_UInt [of "map dtype rest" w] Cons by auto
qed

lemma spec_concat_items_bound:
  "\<forall>ra\<in>set ras. \<forall>x\<in>set (items (start_indices ra)). x \<le> length (flat_array ra) \<Longrightarrow>
   \<forall>x\<in>set (spec_concat_items acc ras). x \<le> acc + length (concat (map flat_array ras))"
proof (induction ras arbitrary: acc)
  case Nil
  then show ?case by simp
next
  case (Cons ra ras)
  have "\<forall>x\<in>set (spec_concat_items (acc + length (flat_array ra)) ras).
      x \<le> acc + length (flat_array ra) + length (concat (map flat_array ras))"
    using Cons.prems by (intro Cons.IH) simp
  then show ?case
    using Cons.prems by (auto simp: add.assoc)
qed

lemma concat_same_type_no_wrap:
  fixes to_concat :: "'a::zero RaggedArray list"
  assumes two: "2 \<le> length to_concat"
    and nw: "no_wrap 0 to_concat"
    and valid: "\<forall>ra\<in>set to_concat. \<forall>x\<in>set (items (start_indices ra)). x \<le> length (flat_array ra)"
  shows "\<exists>W. concat_same_type to_concat =
           Inr \<lparr>start_indices = \<lparr>dtype = UInt W, items = spec_concat_items 0 to_concat\<rparr>,
                flat_array = concat (map flat_array to_concat)\<rparr>"
proof -
  from two obtain ra rb rest where tc: "to_concat = ra # rb # rest"
    by (cases to_concat; cases "tl to_concat") auto
  have flat: "np_hstack_flat (map flat_array to_concat) = Inr (concat (map flat_array to_concat))"
    unfolding tc by simp
  have offsets: "np_hstack [\<lparr>dtype = Int64, items = [0]\<rparr>,
        np_cumsum (map (\<lambda>ra. length (flat_array ra)) (butlast to_concat))]
      = Inr \<lparr>dtype = Int64,
             items = 0 # running_sum 0 (map (\<lambda>ra. length (flat_array ra)) (butlast to_concat))\<rparr>"
    unfolding tc by (simp add: np_cumsum_def)
  have sh: "map (\<lambda>(offset, ra). np_add_scalar (start_indices ra) Int64 offset)
        (zip (0 # running_sum 0 (map (\<lambda>ra. length (flat_array ra)) (butlast to_concat))) to_concat)
      = shifted_arrays 0 to_concat"
    by (simp add: shifted_arrays_def)
  from shifted_arrays_no_wrap [OF nw] have
    it: "concat (map items (shifted_arrays 0 to_concat)) = spec_concat_items 0 to_concat"
    and un: "list_all (\<lambda>a. kind (dtype a) = CHR ''u'') (shifted_arrays 0 to_concat)"
    by simp_all
  have ne: "shifted_arrays 0 to_concat \<noteq> []"
    unfolding tc by simp
  from np_hstack_unsigned [OF ne un] it obtain W where
    hs: "np_hstack (shifted_arrays 0 to_concat) =
           Inr \<lparr>dtype = UInt W, items = spec_concat_items 0 to_concat\<rparr>"
    by auto
  have bound: "\<forall>x\<in>set (spec_concat_items 0 to_concat). x \<le> length (concat (map flat_array to_concat))"
    using spec_concat_items_bound [OF valid, of 0] by simp
  have "RaggedArray_init (Dict (Ndarray 1 \<lparr>dtype = UInt W, items = spec_concat_items 0 to_concat\<rparr>)
          (Ndarray 1 (concat (map flat_array to_concat)))) None
      = Inr \<lparr>start_indices = \<lparr>dtype = UInt W, items = spec_concat_items 0 to_concat\<rparr>,
             flat_array = concat (map flat_array to_concat)\<rparr>"
    using bound by (intro init_Dict_accepts) simp_all
  then have "concat_same_type to_concat =
           Inr \<lparr>start_indices = \<lparr>dtype = UInt W, items = spec_concat_items 0 to_concat\<rparr>,
                flat_array = concat (map flat_array to_concat)\<rparr>"
    unfolding concat_same_type_def flat offsets
    by (simp add: sh hs)
  then show ?thesis ..
qed

text \<open>A list of one store is rejected: \<open>np.cumsum([])\<close> is a \<open>float64\<close> array, so the
  shifted offsets are \<open>float64\<close> and fail the validator's dtype check.\<close>

lemma concat_single_store_fails:
  "concat_same_type [wide_a] =
     Inl (ValueError (StartIndicesNot1DUnsigned (Ndarray 1 \<lparr>dtype = Float64, items = [0]\<rparr>)))"
    by (simp add: concat_same_type_def np_cumsum_def np_add_scalar_def min_scalar_type_def
        RaggedArray_init_def validate_ragged_properties_def np_bool_index_def
        wide_a_def)

text \<open>
  C9. The claim: the three groupings of a concatenation of three stores have the same
  rows. With the wrap-around of C1 they do not: for \<open>a\<close> built from \<open>[[7.0] * 200]\<close>,
  \<open>b\<close> from \<open>[[7.0] * 100, [7.0] * 100]\<close> and \<open>c\<close> from \<open>[[7.0]]\<close>,
  \<open>concat([concat([a, b]), c])\<close> and \<open>concat([a, b, c])\<close> have offsets
  \<open>[0, 200, 44, 400]\<close> and \<open>concat([a, concat([b, c])])\<close> has \<open>[0, 200, 44, 144]\<close>:
  row 2 has 356 elements in the former and 100 in the latter.
\<close>

theorem concat_not_associative:
  "concat_same_type [wide_a, wide_b] =
       Inr \<lparr>start_indices = \<lparr>dtype = UInt 8, items = [0, 200, 44]\<rparr>,
            flat_array = replicate 400 7\<rparr>
   \<and> concat_same_type [\<lparr>start_indices = \<lparr>dtype = UInt 8, items = [0, 200, 44]\<rparr>,
            flat_array = replicate 400 7\<rparr>, one_row_store] =
       Inr \<lparr>start_indices = \<lparr>dtype = UInt 16, items = [0, 200, 44, 400]\<rparr>,
            flat_array = replicate 401 7\<rparr>
   \<and> concat_same_type [wide_b, one_row_store] =
       Inr \<lparr>start_indices = \<lparr>dtype = UInt 8, items = [0, 100, 200]\<rparr>,
            flat_array = replicate 201 7\<rparr>
   \<and> concat_same_type [wide_a, \<lparr>start_indices = \<lparr>dtype = UInt 8, items = [0, 100, 200]\<rparr>,
            flat_array = replicate 201 7\<rparr>] =
       Inr \<lparr>start_indices = \<lparr>dtype = UInt 8, items = [0, 200, 44, 144]\<rparr>,
            flat_array = replicate 401 7\<rparr>
   \<and> concat_same_type [wide_a, wide_b, one_row_store] =
       Inr \<lparr>start_indices = \<lparr>dtype = UInt 16, items = [0, 200, 44, 400]\<rparr>,
            flat_array = replicate 401 7\<rparr>
   \<and> spec_row \<lparr>start_indices = \<lparr>dtype = UInt 16, items = [0, 200, 44, 400]\<rparr>,
            flat_array = replicate 401 (7::real)\<rparr> 2 = replicate 356 7
   \<and> spec_row \<lparr>start_indices = \<lparr>dtype = UInt 8, items = [0, 200, 44, 144]\<rparr>,
            flat_array = replicate 401 (7::real)\<rparr> 2 = replicate 100 7"
proof -
  note defs = concat_same_type_def np_cumsum_def np_add_scalar_def min_scalar_type_def
        RaggedArray_init_def validate_ragged_properties_def np_bool_index_def
        wide_a_def wide_b_def one_row_store_def replicate_append_same replicate_append_one
  have 1: "concat_same_type [wide_a, wide_b] =
       Inr \<lparr>start_indices = \<lparr>dtype = UInt 8, items = [0, 200, 44]\<rparr>,
            flat_array = replicate 400 7\<rparr>"
    by (simp add: defs)
  have 2: "concat_same_type [\<lparr>start_indices = \<lparr>dtype = UInt 8, items = [0, 200, 44]\<rparr>,
            flat_array = replicate 400 7\<rparr>, one_row_store] =
       Inr \<lparr>start_indices = \<lparr>dtype = UInt 16, items = [0, 200, 44, 400]\<rparr>,
            flat_array = replicate 401 7\<rparr>"
    by (simp add: defs)
  have 3: "concat_same_type [wide_b, one_row_store] =
       Inr \<lparr>start_indices = \<lparr>dtype = UInt 8, items = [0, 100, 200]\<rparr>,
            flat_array = replicate 201 7\<rparr>"
    by (simp add: defs)
  have 4: "concat_same_type [wide_a, \<lparr>start_indices = \<lparr>dtype = UInt 8, items = [0, 100, 200]\<rparr>,
            flat_array = replicate 201 7\<rparr>] =
       Inr \<lparr>start_indices = \<lparr>dtype = UInt 8, items = [0, 200, 44, 144]\<rparr>,
            flat_array = replicate 401 7\<rparr>"
    by (simp add: defs)
  have 5: "concat_same_type [wide_a, wide_b, one_row_store] =
       Inr \<lparr>start_indices = \<lparr>dtype = UInt 16, items = [0, 200, 44, 400]\<rparr>,
            flat_array = replicate 401 7\<rparr>"
    by (simp add: defs)
  have 6: "spec_row \<lparr>start_indices = \<lparr>dtype = UInt 16, items = [0, 200, 44, 400]\<rparr>,
            flat_array = replicate 401 (7::real)\<rparr> 2 = replicate 356 7"
    by (simp add: spec_row_def spec_row_start_def spec_row_stop_def py_slice_def len_ra_def)
  have 7: "spec_row \<lparr>start_indices = \<lparr>dtype = UInt 8, items = [0, 200, 44, 144]\<rparr>,
            flat_array = replicate 401 (7::real)\<rparr> 2 = replicate 100 7"
    by (simp add: spec_row_def spec_row_start_def spec_row_stop_def py_slice_def len_ra_def)
  from 1 2 3 4 5 6 7 show ?thesis by simp
qed

theorem concat_not_associative_witness:
  "spec_row \<lparr>start_indices = \<lparr>dtype = UInt 16, items = [0, 200, 44, 400]\<rparr>,
            flat_array = replicate 401 (7::real)\<rparr> 2
   \<noteq> spec_row \<lparr>start_indices = \<lparr>dtype = UInt 8, items = [0, 200, 44, 144]\<rparr>,
            flat_array = replicate 401 (7::real)\<rparr> 2"
proof -
  have "length (replicate 356 (7::real)) \<noteq> length (replicate 100 (7::real))"
    by simp
  then have "replicate 356 (7::real) \<noteq> replicate 100 7"
    by (rule contrapos_nn) (rule arg_cong [of _ _ length])
  with concat_not_associative show ?thesis by simp
qed

end
